theory Spec2Isabelle
  imports Main
begin

section \<open>Strings\<close>

text \<open>
  A Python \<open>str\<close> is a sequence of Unicode code points; \<open>len\<close> counts code points.
  A string is modelled as the list of its code points. \<open>pystr_of\<close> writes an ASCII
  literal of the source as such a list.
\<close>

type_synonym pystr = "nat list"

definition pystr_of :: "string \<Rightarrow> pystr" where
  "pystr_of s = map of_char s"

text \<open>
  The classification of the code points above ASCII comes from the Unicode database of
  the Python runtime. It is a parameter of the model: \<open>uc_Nd\<close> is the category Nd that
  \<open>\d\<close> matches, the other three are \<open>str.isupper\<close>, \<open>str.islower\<close> and \<open>str.isdigit\<close>
  on a one-character string. Below 128 the classes are fixed and written out.
\<close>

record ucd =
  uc_Nd :: "nat \<Rightarrow> bool"
  uc_isupper :: "nat \<Rightarrow> bool"
  uc_islower :: "nat \<Rightarrow> bool"
  uc_isdigit :: "nat \<Rightarrow> bool"

definition is_ascii :: "nat \<Rightarrow> bool" where
  "is_ascii c = (c < 128)"

text \<open>\<open>str.isspace\<close> on one character: the white space of \<open>str.strip()\<close>.\<close>

definition py_isspace :: "nat \<Rightarrow> bool" where
  "py_isspace c =
     ((9 \<le> c \<and> c \<le> 13) \<or> (28 \<le> c \<and> c \<le> 32) \<or> c = 133 \<or> c = 160 \<or> c = 5760
      \<or> (8192 \<le> c \<and> c \<le> 8202) \<or> c = 8232 \<or> c = 8233 \<or> c = 8239 \<or> c = 8287
      \<or> c = 12288)"

definition strip :: "pystr \<Rightarrow> pystr" where
  "strip s = rev (dropWhile py_isspace (rev (dropWhile py_isspace s)))"

section \<open>auth.py: validate_password\<close>

text \<open>The four character classes of the regular expressions, on one code point.\<close>

definition re_upper :: "nat \<Rightarrow> bool" where
  "re_upper c = (65 \<le> c \<and> c \<le> 90)"

definition re_lower :: "nat \<Rightarrow> bool" where
  "re_lower c = (97 \<le> c \<and> c \<le> 122)"

definition re_digit :: "ucd \<Rightarrow> nat \<Rightarrow> bool" where
  "re_digit U c = (if c < 128 then 48 \<le> c \<and> c \<le> 57 else uc_Nd U c)"

definition re_symbol :: "nat \<Rightarrow> bool" where
  "re_symbol c = (\<not> ((65 \<le> c \<and> c \<le> 90) \<or> (97 \<le> c \<and> c \<le> 122) \<or> (48 \<le> c \<and> c \<le> 57)))"

text \<open>\<open>bool(re.search(cls, password))\<close> for a pattern that is one character class.\<close>

primrec re_search :: "(nat \<Rightarrow> bool) \<Rightarrow> pystr \<Rightarrow> bool" where
  "re_search cls [] = False"
| "re_search cls (c # cs) = (if cls c then True else re_search cls cs)"

definition has_upper :: "pystr \<Rightarrow> bool" where
  "has_upper password = re_search re_upper password"

definition has_lower :: "pystr \<Rightarrow> bool" where
  "has_lower password = re_search re_lower password"

definition has_digit :: "ucd \<Rightarrow> pystr \<Rightarrow> bool" where
  "has_digit U password = re_search (re_digit U) password"

definition has_symbol :: "pystr \<Rightarrow> bool" where
  "has_symbol password = re_search re_symbol password"

definition validate_password :: "ucd \<Rightarrow> pystr \<Rightarrow> bool \<times> string" where
  "validate_password U password =
     (if length password < 16 then (False, ''Password must be at least 16 characters long'')
      else
        let categories = (0::nat);
            categories = (if has_upper password then categories + 1 else categories);
            categories = (if has_lower password then categories + 1 else categories);
            categories = (if has_digit U password then categories + 1 else categories);
            categories = (if has_symbol password then categories + 1 else categories)
        in if categories < 3 then
             (False, ''Password must contain at least 3 of: uppercase, lowercase, number, symbol'')
           else (True, ''''))"

text \<open>How many of the four category flags hold, counted from the flags themselves.\<close>

definition categories_present :: "ucd \<Rightarrow> pystr \<Rightarrow> nat" where
  "categories_present U p =
     length (filter id [has_upper p, has_lower p, has_digit U p, has_symbol p])"

text \<open>At least three of four flags hold: one of the four triples does.\<close>

definition three_of_four :: "bool \<Rightarrow> bool \<Rightarrow> bool \<Rightarrow> bool \<Rightarrow> bool" where
  "three_of_four a b c d =
     ((a \<and> b \<and> c) \<or> (a \<and> b \<and> d) \<or> (a \<and> c \<and> d) \<or> (b \<and> c \<and> d))"

section \<open>routes.py: the inline password strength check\<close>

text \<open>
  The same lines stand in \<open>register\<close> (129-147), \<open>reset_password\<close> (673-690) and
  \<open>add_user\<close> (736-753); only the name of the variable differs.
\<close>

definition py_isupper :: "ucd \<Rightarrow> nat \<Rightarrow> bool" where
  "py_isupper U c = (if c < 128 then 65 \<le> c \<and> c \<le> 90 else uc_isupper U c)"

definition py_islower :: "ucd \<Rightarrow> nat \<Rightarrow> bool" where
  "py_islower U c = (if c < 128 then 97 \<le> c \<and> c \<le> 122 else uc_islower U c)"

definition py_isdigit :: "ucd \<Rightarrow> nat \<Rightarrow> bool" where
  "py_isdigit U c = (if c < 128 then 48 \<le> c \<and> c \<le> 57 else uc_isdigit U c)"

definition inline_symbols :: pystr where
  "inline_symbols = pystr_of ''!@#$%^&*()_+-=[]{}|;:,.<>?''"

definition in_inline_symbols :: "nat \<Rightarrow> bool" where
  "in_inline_symbols c = List.member inline_symbols c"

text \<open>\<open>any(f(c) for c in password)\<close>.\<close>

primrec py_any :: "('a \<Rightarrow> bool) \<Rightarrow> 'a list \<Rightarrow> bool" where
  "py_any f [] = False"
| "py_any f (c # cs) = (if f c then True else py_any f cs)"

definition complexity_count :: "ucd \<Rightarrow> pystr \<Rightarrow> nat" where
  "complexity_count U password =
     (let complexity_count = (0::nat);
          complexity_count =
            (if py_any (py_isupper U) password then complexity_count + 1 else complexity_count);
          complexity_count =
            (if py_any (py_islower U) password then complexity_count + 1 else complexity_count);
          complexity_count =
            (if py_any (py_isdigit U) password then complexity_count + 1 else complexity_count);
          complexity_count =
            (if py_any in_inline_symbols password then complexity_count + 1
             else complexity_count)
      in complexity_count)"

text \<open>The message flashed by the check, or \<open>None\<close> when the route goes on.\<close>

definition password_strength_check :: "ucd \<Rightarrow> pystr \<Rightarrow> string option" where
  "password_strength_check U password =
     (if length password < 16 then Some ''Password must be at least 16 characters long.''
      else if complexity_count U password < 3 then
        Some ''Password must contain at least 3 of: uppercase, lowercase, number, symbol.''
      else None)"

section \<open>The data model\<close>

text \<open>
  Timestamps are seconds on the UTC clock. \<open>models.py\<close> is not among the sources; the
  columns of \<open>User\<close> and \<open>LoginAttempt\<close> are the ones the routes and \<open>auth.py\<close> read
  and write.
\<close>

type_synonym time = int

record user =
  user_id :: nat
  username :: pystr
  email :: pystr
  password_hash :: pystr
  failed_login_attempts :: int
  locked_until :: "time option"
  is_approved :: bool
  is_active :: bool
  is_admin :: bool

text \<open>
  A Python value as a call passes it: the arguments of \<open>log_login_attempt\<close> are not
  typed, and a \<open>LoginAttempt\<close> row stores what it is given.
\<close>

datatype pyval = VStr pystr | VBool bool | VNone

record login_attempt =
  la_username :: pyval
  la_ip_address :: pyval
  la_success :: pyval
  la_user_agent :: pyval

text \<open>
  A flashed message: a literal of the source, or one of its f-strings with the value it
  formats. \<open>Locked_until_msg\<close> is "Account is locked due to too many failed attempts.
  Try again after ..." with \<open>user.locked_until\<close>; \<open>Welcome_back\<close> is "Welcome back,
  ...!"; \<open>Attempts_remaining\<close> is "Invalid password. ... attempts remaining before
  lockout."; \<open>Reset_ok\<close> is "Password reset successfully for ...".
\<close>

datatype flash_msg =
    Msg string
  | Locked_until_msg "time option"
  | Welcome_back pystr
  | Attempts_remaining int
  | Reset_ok pystr

datatype response = Render string | Redirect string

datatype py_error = TypeError | KeyError | CommitFailed | NotFound404

text \<open>
  The stored state a request runs on: the two tables, the cookie session and the
  flashed messages with their categories. When a route ends in an exception (\<open>Inl\<close>),
  nothing of the request has been committed and the stored state is the one before.
\<close>

record state =
  users :: "user list"
  login_attempts :: "login_attempt list"
  session_user_id :: "nat option"
  session_username :: "pystr option"
  flashes :: "(flash_msg \<times> string) list"

text \<open>
  The request as the routes read it: \<open>request.method\<close> (the field \<open>req_method\<close>), the
  form, the headers as \<open>request.headers.get\<close> looks them up, and the two sources of
  the peer address.
\<close>

datatype http_method = GET | POST

record request =
  req_method :: http_method
  form :: "string \<rightharpoonup> pystr"
  headers :: "string \<rightharpoonup> pystr"
  environ_remote_addr :: "pystr option"
  remote_addr :: "pystr option"

text \<open>
  What a request meets outside the program: the clock, whether the commit of the route
  and the write of the audit row go through, werkzeug's two hash functions, Python's
  \<open>int\<close> on a string (\<open>None\<close> for \<open>ValueError\<close>), and the row the database makes of a
  new \<open>User\<close> before the constructor's own columns are set (its key and the defaults of
  the other columns).
\<close>

record env =
  now :: time
  commit_ok :: bool
  audit_ok :: bool
  generate_password_hash :: "pystr \<Rightarrow> pystr"
  check_password_hash :: "pystr \<Rightarrow> pystr \<Rightarrow> bool"
  py_int :: "pystr \<Rightarrow> int option"
  column_defaults :: user

definition flash :: "flash_msg \<Rightarrow> string \<Rightarrow> state \<Rightarrow> state" where
  "flash m category st = st\<lparr>flashes := flashes st @ [(m, category)]\<rparr>"

text \<open>\<open>request.form.get(key, default)\<close>.\<close>

definition form_get :: "request \<Rightarrow> string \<Rightarrow> pystr \<Rightarrow> pystr" where
  "form_get req k d = (case form req k of None \<Rightarrow> d | Some v \<Rightarrow> v)"

text \<open>
  \<open>Query.filter(...).first()\<close>: the first row that satisfies the filter, with its
  position in the table; the object the route then mutates is that row.
\<close>

primrec first_where :: "('a \<Rightarrow> bool) \<Rightarrow> 'a list \<Rightarrow> (nat \<times> 'a) option" where
  "first_where P [] = None"
| "first_where P (x # xs) =
     (if P x then Some (0, x)
      else case first_where P xs of None \<Rightarrow> None | Some (i, y) \<Rightarrow> Some (Suc i, y))"

text \<open>\<open>db.session.commit()\<close> outside a \<open>try\<close>: the pending rows are stored, or it raises.\<close>

definition commit :: "env \<Rightarrow> state \<Rightarrow> py_error + state" where
  "commit e st = (if commit_ok e then Inr st else Inl CommitFailed)"

section \<open>The methods of User\<close>

text \<open>
  Modelled from the spec: \<open>User.is_locked\<close>, \<open>User.increment_failed_login\<close>,
  \<open>User.reset_failed_logins\<close> and \<open>User.check_password\<close> of \<open>models.py\<close>, which is not
  among the sources. Section 4.2 of the specification gives them as \<open>isLocked\<close>,
  \<open>recordFailure\<close>, \<open>recordSuccess\<close> and \<open>verify\<close>.
\<close>

definition lockout_threshold :: int where
  "lockout_threshold = 10"

definition lockout_seconds :: int where
  "lockout_seconds = 30 * 60"

definition is_locked :: "env \<Rightarrow> user \<Rightarrow> bool" where
  "is_locked e u = (case locked_until u of None \<Rightarrow> False | Some t \<Rightarrow> now e < t)"

definition increment_failed_login :: "env \<Rightarrow> user \<Rightarrow> user" where
  "increment_failed_login e u =
     (let n = failed_login_attempts u + 1
      in if n \<ge> lockout_threshold
         then u\<lparr>failed_login_attempts := n, locked_until := Some (now e + lockout_seconds)\<rparr>
         else u\<lparr>failed_login_attempts := n\<rparr>)"

definition reset_failed_logins :: "user \<Rightarrow> user" where
  "reset_failed_logins u = u\<lparr>failed_login_attempts := 0, locked_until := None\<rparr>"

definition check_password :: "env \<Rightarrow> user \<Rightarrow> pystr \<Rightarrow> bool" where
  "check_password e u password = check_password_hash e (password_hash u) password"

section \<open>auth.py: get_client_ip and log_login_attempt\<close>

text \<open>The loop over the proxy headers: the first one with a non-empty value wins.\<close>

primrec first_header :: "(string \<rightharpoonup> pystr) \<Rightarrow> string list \<Rightarrow> pystr option" where
  "first_header hdr [] = None"
| "first_header hdr (h # hs) =
     (case hdr h of
        None \<Rightarrow> first_header hdr hs
      | Some v \<Rightarrow>
          if v \<noteq> [] then Some (strip (takeWhile (\<lambda>c. c \<noteq> 44) v))
          else first_header hdr hs)"

definition get_client_ip :: "request \<Rightarrow> pystr option" where
  "get_client_ip req =
     (case first_header (headers req)
             [''X-Real-Ip'', ''X-Real-IP'', ''X-Forwarded-For'', ''X-MS-Forwarded-Client-IP''] of
        Some ip \<Rightarrow> Some ip
      | None \<Rightarrow>
          (case environ_remote_addr req of
             None \<Rightarrow> remote_addr req
           | Some a \<Rightarrow> if a \<noteq> [] then Some a else remote_addr req))"

definition opt_val :: "pystr option \<Rightarrow> pyval" where
  "opt_val x = (case x of None \<Rightarrow> VNone | Some s \<Rightarrow> VStr s)"

definition truthy :: "pyval \<Rightarrow> bool" where
  "truthy v = (case v of VStr s \<Rightarrow> s \<noteq> [] | VBool b \<Rightarrow> b | VNone \<Rightarrow> False)"

text \<open>
  The body of \<open>log_login_attempt\<close>. Everything that touches the database stands in the
  \<open>try\<close>; when it raises, the handler logs, rolls the audit transaction back and returns.
\<close>

definition log_login_attempt_body ::
  "env \<Rightarrow> request \<Rightarrow> pyval \<Rightarrow> pyval \<Rightarrow> pyval \<Rightarrow> state \<Rightarrow> state" where
  "log_login_attempt_body e req uname success user_agent st =
     (let attempt = \<lparr>la_username = uname,
                      la_ip_address = opt_val (get_client_ip req),
                      la_success = success,
                      la_user_agent =
                        (if truthy user_agent then user_agent
                         else VStr (take 255 (case headers req ''User-Agent'' of
                                                None \<Rightarrow> [] | Some v \<Rightarrow> v)))\<rparr>
      in if audit_ok e then st\<lparr>login_attempts := login_attempts st @ [attempt]\<rparr>
         else st)"

text \<open>
  A call of \<open>log_login_attempt(username, success, user_agent=None)\<close> with positional
  arguments: Python binds two or three of them and raises \<open>TypeError\<close> on any other
  number, before the body (and its \<open>try\<close>) is entered.
\<close>

definition log_login_attempt ::
  "env \<Rightarrow> request \<Rightarrow> pyval list \<Rightarrow> state \<Rightarrow> py_error + state" where
  "log_login_attempt e req args st =
     (case args of
        [uname, success] \<Rightarrow> Inr (log_login_attempt_body e req uname success VNone st)
      | [uname, success, user_agent] \<Rightarrow>
          Inr (log_login_attempt_body e req uname success user_agent st)
      | _ \<Rightarrow> Inl TypeError)"

section \<open>routes.py: login\<close>

text \<open>
  The route, statement by statement. The two early audit calls pass four positional
  arguments (the user name, the client address, \<open>False\<close> and a reason); the two late
  ones pass two.
\<close>

definition login :: "env \<Rightarrow> request \<Rightarrow> state \<Rightarrow> py_error + (response \<times> state)" where
  "login e req st =
     (if req_method req = POST then
        let uname = strip (form_get req ''username'' []);
            password = form_get req ''password'' [];
            client_ip = get_client_ip req
        in if uname = [] \<or> password = [] then
             Inr (Render ''nasa_login.html'',
                  flash (Msg ''Username and password are required.'') ''danger'' st)
           else
            (case first_where (\<lambda>u. username u = uname) (users st) of
               None \<Rightarrow>
                 (case log_login_attempt e req
                         [VStr uname, opt_val client_ip, VBool False,
                          VStr (pystr_of ''User not found'')] st of
                    Inl err \<Rightarrow> Inl err
                  | Inr st1 \<Rightarrow>
                      Inr (Render ''nasa_login.html'',
                           flash (Msg ''Invalid username or password.'') ''danger'' st1))
             | Some (i, u) \<Rightarrow>
                 if \<not> is_approved u then
                   (case log_login_attempt e req
                           [VStr uname, opt_val client_ip, VBool False,
                            VStr (pystr_of ''Account pending approval'')] st of
                      Inl err \<Rightarrow> Inl err
                    | Inr st1 \<Rightarrow>
                        Inr (Render ''nasa_login.html'',
                             flash (Msg ''Your account is pending admin approval.'')
                               ''warning'' st1))
                 else if is_locked e u then
                   Inr (Render ''nasa_login.html'',
                        flash (Locked_until_msg (locked_until u)) ''danger'' st)
                 else if check_password e u password then
                   (let u1 = reset_failed_logins u
                    in case commit e (st\<lparr>users := list_update (users st) i u1\<rparr>) of
                         Inl err \<Rightarrow> Inl err
                       | Inr st1 \<Rightarrow>
                           let st2 = st1\<lparr>session_user_id := Some (user_id u1),
                                          session_username := Some (username u1)\<rparr>
                           in (case log_login_attempt e req [VStr uname, VBool True] st2 of
                                 Inl err \<Rightarrow> Inl err
                               | Inr st3 \<Rightarrow>
                                   Inr (Redirect ''nasa_bp.dashboard'',
                                        flash (Welcome_back (username u1)) ''success'' st3)))
                 else
                   (let u1 = increment_failed_login e u
                    in case commit e (st\<lparr>users := list_update (users st) i u1\<rparr>) of
                         Inl err \<Rightarrow> Inl err
                       | Inr st1 \<Rightarrow>
                           (case log_login_attempt e req [VStr uname, VBool False] st1 of
                              Inl err \<Rightarrow> Inl err
                            | Inr st2 \<Rightarrow>
                                let remaining = 10 - failed_login_attempts u1
                                in if remaining > 0 then
                                     Inr (Render ''nasa_login.html'',
                                          flash (Attempts_remaining remaining) ''danger'' st2)
                                   else
                                     Inr (Render ''nasa_login.html'',
                                          flash (Msg ''Account locked for 30 minutes due to too many failed attempts.'')
                                            ''danger'' st2))))
      else Inr (Render ''nasa_login.html'', st))"

section \<open>routes.py: reset_password\<close>

text \<open>The decorator \<open>login_required\<close> around a view.\<close>

definition login_required ::
  "(state \<Rightarrow> py_error + (response \<times> state)) \<Rightarrow> state \<Rightarrow> py_error + (response \<times> state)" where
  "login_required f st =
     (if session_user_id st = None then
        Inr (Redirect ''nasa_bp.login'',
             flash (Msg ''Please log in to access this page.'') ''warning'' st)
      else f st)"

text \<open>\<open>not v\<close> for a form value that may be missing: \<open>None\<close> and the empty string.\<close>

definition form_blank :: "pystr option \<Rightarrow> bool" where
  "form_blank v = (case v of None \<Rightarrow> True | Some s \<Rightarrow> s = [])"

text \<open>
  The view under the decorator. \<open>uid\<close> is the \<open>user_id\<close> of the URL. The commit stands in
  a \<open>try\<close>: when it raises, the handler rolls back, so the stored row keeps its old
  values, and flashes an error.
\<close>

definition reset_password_view ::
  "ucd \<Rightarrow> env \<Rightarrow> request \<Rightarrow> nat \<Rightarrow> state \<Rightarrow> py_error + (response \<times> state)" where
  "reset_password_view U e req uid st =
     (case session_user_id st of
        None \<Rightarrow> Inl KeyError
      | Some sid \<Rightarrow>
          let admin = first_where (\<lambda>u. user_id u = sid) (users st)
          in if (case admin of None \<Rightarrow> True | Some (j, a) \<Rightarrow> \<not> is_admin a) then
               Inr (Redirect ''nasa_bp.index'',
                    flash (Msg ''Access denied. Admin privileges required.'') ''danger'' st)
             else
              (case first_where (\<lambda>u. user_id u = uid) (users st) of
                 None \<Rightarrow> Inl NotFound404
               | Some (i, target_user) \<Rightarrow>
                   let new_password = form req ''new_password'';
                       confirm_password = form req ''confirm_password''
                   in if form_blank new_password \<or> form_blank confirm_password then
                        Inr (Redirect ''nasa_bp.admin'',
                             flash (Msg ''Both password fields are required.'') ''danger'' st)
                      else if new_password \<noteq> confirm_password then
                        Inr (Redirect ''nasa_bp.admin'',
                             flash (Msg ''Passwords do not match.'') ''danger'' st)
                      else
                       (case new_password of
                          None \<Rightarrow> Inl TypeError
                        | Some pw \<Rightarrow>
                            (case password_strength_check U pw of
                               Some m \<Rightarrow>
                                 Inr (Redirect ''nasa_bp.admin'', flash (Msg m) ''danger'' st)
                             | None \<Rightarrow>
                                 let t1 = target_user\<lparr>password_hash := generate_password_hash e pw,
                                                       failed_login_attempts := 0,
                                                       locked_until := None\<rparr>
                                 in if commit_ok e then
                                      Inr (Redirect ''nasa_bp.admin'',
                                           flash (Reset_ok (username t1)) ''success''
                                             (st\<lparr>users := list_update (users st) i t1\<rparr>))
                                    else
                                      Inr (Redirect ''nasa_bp.admin'',
                                           flash (Msg ''An error occurred while resetting the password.'')
                                             ''danger'' st)))))"

definition reset_password ::
  "ucd \<Rightarrow> env \<Rightarrow> request \<Rightarrow> nat \<Rightarrow> state \<Rightarrow> py_error + (response \<times> state)" where
  "reset_password U e req uid st = login_required (reset_password_view U e req uid) st"

text \<open>A run of login requests, each with its own clock and outcome of the writes.\<close>

fun login_all :: "(env \<times> request) list \<Rightarrow> state \<Rightarrow> py_error + state" where
  "login_all [] st = Inr st"
| "login_all ((e, req) # rs) st =
     (case login e req st of Inl err \<Rightarrow> Inl err | Inr (r, st1) \<Rightarrow> login_all rs st1)"

section \<open>routes.py: register\<close>

definition register :: "ucd \<Rightarrow> env \<Rightarrow> request \<Rightarrow> state \<Rightarrow> py_error + (response \<times> state)" where
  "register U e req st =
     (if req_method req = POST then
        let uname = strip (form_get req ''username'' []);
            mail = strip (form_get req ''email'' []);
            password = form_get req ''password'' [];
            password_confirm = form_get req ''password_confirm'' [];
            captcha_user = strip (form_get req ''captcha'' []);
            captcha_answer = strip (form_get req ''captcha_answer'' []);
            again = (\<lambda>m. Inr (Render ''nasa_register.html'', flash (Msg m) ''danger'' st))
        in if captcha_user = [] \<or> captcha_answer = [] then
             again ''Please complete the security check.''
           else
            (case py_int e captcha_user of
               None \<Rightarrow> again ''Invalid security answer.''
             | Some a \<Rightarrow>
                (case py_int e captcha_answer of
                   None \<Rightarrow> again ''Invalid security answer.''
                 | Some b \<Rightarrow>
                     if a \<noteq> b then again ''Incorrect answer to security question.''
                     else if uname = [] \<or> mail = [] \<or> password = [] then
                       again ''All fields are required.''
                     else if password \<noteq> password_confirm then
                       again ''Passwords do not match.''
                     else
                      (case password_strength_check U password of
                         Some m \<Rightarrow> again m
                       | None \<Rightarrow>
                           if first_where (\<lambda>u. username u = uname) (users st) \<noteq> None then
                             again ''Username already taken.''
                           else if first_where (\<lambda>u. email u = mail) (users st) \<noteq> None then
                             again ''Email already registered.''
                           else
                             let hashed_password = generate_password_hash e password;
                                 new_user = (column_defaults e)
                                              \<lparr>username := uname, email := mail,
                                               password_hash := hashed_password,
                                               is_approved := False\<rparr>
                             in if commit_ok e then
                                  Inr (Redirect ''nasa_bp.login'',
                                       flash (Msg ''Registration successful! Your account is pending admin approval.'')
                                         ''success'' (st\<lparr>users := users st @ [new_user]\<rparr>))
                                else again ''Registration failed. Please try again.'')))
      else Inr (Render ''nasa_register.html'', st))"

section \<open>What a caller sees, and sample data\<close>

text \<open>
  The outcome of a route with the audit table left out: the exception or the response,
  the accounts, the session and the flashed messages.
\<close>

definition outcome ::
  "py_error + (response \<times> state) \<Rightarrow>
   py_error + (response \<times> user list \<times> nat option \<times> pystr option \<times> (flash_msg \<times> string) list)" where
  "outcome res =
     (case res of
        Inl err \<Rightarrow> Inl err
      | Inr (r, st) \<Rightarrow>
          Inr (r, users st, session_user_id st, session_username st, flashes st))"

text \<open>
  A login request for an account: a POST whose stripped user name is the account's, with
  a password that is not empty, at a time when the commit of the route goes through.
\<close>

definition login_request_for :: "user \<Rightarrow> env \<times> request \<Rightarrow> bool" where
  "login_request_for u r =
     (case r of (e, req) \<Rightarrow>
        req_method req = POST \<and> strip (form_get req ''username'' []) = username u \<and>
        form_get req ''password'' [] \<noteq> [] \<and> commit_ok e)"

text \<open>Such a request with a password that does not verify, while the account is not locked.\<close>

definition wrong_password_request :: "user \<Rightarrow> env \<times> request \<Rightarrow> bool" where
  "wrong_password_request u r =
     (case r of (e, req) \<Rightarrow>
        login_request_for u r \<and> \<not> is_locked e u \<and>
        \<not> check_password_hash e (password_hash u) (form_get req ''password'' []))"

text \<open>
  The row a call \<open>log_login_attempt(username, success)\<close> adds: the user name as
  submitted, the client address, the flag, and the first 255 characters of the
  \<open>User-Agent\<close> header.
\<close>

definition audit_row :: "request \<Rightarrow> pystr \<Rightarrow> bool \<Rightarrow> login_attempt" where
  "audit_row req uname ok =
     \<lparr>la_username = VStr uname, la_ip_address = opt_val (get_client_ip req),
      la_success = VBool ok,
      la_user_agent =
        VStr (take 255 (case headers req ''User-Agent'' of None \<Rightarrow> [] | Some v \<Rightarrow> v))\<rparr>"

text \<open>
  Sample data to run the model on: a stand-in for the two hash functions (the hash of a
  password is the password behind a zero), one approved account, and a login form.
\<close>

definition sample_user :: user where
  "sample_user =
     \<lparr>user_id = 7, username = pystr_of ''bob'', email = pystr_of ''bob@example.org'',
      password_hash = 0 # pystr_of ''Correct-Horse-42!'', failed_login_attempts = 0,
      locked_until = None, is_approved = True, is_active = True, is_admin = False\<rparr>"

definition sample_env :: "time \<Rightarrow> env" where
  "sample_env t =
     \<lparr>now = t, commit_ok = True, audit_ok = True,
      generate_password_hash = (\<lambda>p. 0 # p),
      check_password_hash = (\<lambda>h p. h = 0 # p),
      py_int = (\<lambda>s. None),
      column_defaults = sample_user\<rparr>"

definition login_post :: "string \<Rightarrow> string \<Rightarrow> request" where
  "login_post name pw =
     \<lparr>req_method = POST,
      form = [''username'' \<mapsto> pystr_of name, ''password'' \<mapsto> pystr_of pw],
      headers = Map.empty, environ_remote_addr = Some (pystr_of ''10.0.0.9''),
      remote_addr = None\<rparr>"

definition sample_state :: "user list \<Rightarrow> state" where
  "sample_state us =
     \<lparr>users = us, login_attempts = [], session_user_id = None, session_username = None,
      flashes = []\<rparr>"

definition sample_admin :: user where
  "sample_admin =
     sample_user\<lparr>user_id := 1, username := pystr_of ''root'',
                 email := pystr_of ''root@example.org'', is_admin := True\<rparr>"

definition reset_post :: "string \<Rightarrow> string \<Rightarrow> request" where
  "reset_post pw confirm =
     \<lparr>req_method = POST,
      form = [''new_password'' \<mapsto> pystr_of pw, ''confirm_password'' \<mapsto> pystr_of confirm],
      headers = Map.empty, environ_remote_addr = Some (pystr_of ''10.0.0.9''),
      remote_addr = None\<rparr>"

section \<open>The password policy\<close>

lemma re_search_iff: "re_search cls p \<longleftrightarrow> (\<exists>c \<in> set p. cls c)"
  by (induction p) auto

lemma py_any_iff: "py_any f p \<longleftrightarrow> (\<exists>c \<in> set p. f c)"
  by (induction p) auto

text \<open>The flags on the characters: what each search looks for.\<close>

lemma has_upper_iff: "has_upper p \<longleftrightarrow> (\<exists>c \<in> set p. 65 \<le> c \<and> c \<le> 90)"
  by (simp add: has_upper_def re_search_iff re_upper_def)

lemma has_lower_iff: "has_lower p \<longleftrightarrow> (\<exists>c \<in> set p. 97 \<le> c \<and> c \<le> 122)"
  by (simp add: has_lower_def re_search_iff re_lower_def)

lemma has_digit_ascii_iff:
  "list_all is_ascii p \<Longrightarrow> has_digit U p \<longleftrightarrow> (\<exists>c \<in> set p. 48 \<le> c \<and> c \<le> 57)"
  by (auto simp: has_digit_def re_search_iff re_digit_def list_all_iff is_ascii_def)

lemma has_symbol_iff:
  "has_symbol p \<longleftrightarrow>
     (\<exists>c \<in> set p. \<not> (65 \<le> c \<and> c \<le> 90) \<and> \<not> (97 \<le> c \<and> c \<le> 122) \<and> \<not> (48 \<le> c \<and> c \<le> 57))"
  by (simp add: has_symbol_def re_search_iff re_symbol_def)

lemma validate_password_cases:
  "validate_password U p =
     (if length p < 16 then (False, ''Password must be at least 16 characters long'')
      else if categories_present U p < 3 then (False,
                ''Password must contain at least 3 of: uppercase, lowercase, number, symbol'')
      else (True, []))"
  by (simp add: validate_password_def categories_present_def Let_def)

lemmas password_eval =
  categories_present_def password_strength_check_def complexity_count_def pystr_of_def
  has_upper_def has_lower_def has_digit_def has_symbol_def
  re_upper_def re_lower_def re_digit_def re_symbol_def
  py_isupper_def py_islower_def py_isdigit_def

lemma categories_present_ge3:
  "3 \<le> categories_present U p \<longleftrightarrow>
     three_of_four (has_upper p) (has_lower p) (has_digit U p) (has_symbol p)"
  by (auto simp: categories_present_def three_of_four_def)

text \<open>
  C4. For every password, \<open>validate_password\<close> answers valid exactly when the password
  has at least 16 characters and at least 3 of the 4 flags \<open>has_upper\<close>, \<open>has_lower\<close>,
  \<open>has_digit\<close>, \<open>has_symbol\<close> hold. Under 16 characters it fails with the too-short
  reason, the text "Password must be at least 16 characters long"; from 16 characters
  on with fewer than 3 flags it fails with the insufficient-complexity reason, the
  text "Password must contain at least 3 of: uppercase, lowercase, number, symbol".
\<close>

theorem validate_password_iff:
  "(fst (validate_password U p) \<longleftrightarrow>
      16 \<le> length p
      \<and> three_of_four (has_upper p) (has_lower p) (has_digit U p) (has_symbol p))
   \<and> (length p < 16 \<longrightarrow>
        validate_password U p = (False, ''Password must be at least 16 characters long''))
   \<and> (16 \<le> length p
        \<and> \<not> three_of_four (has_upper p) (has_lower p) (has_digit U p) (has_symbol p) \<longrightarrow>
        validate_password U p = (False,
                ''Password must contain at least 3 of: uppercase, lowercase, number, symbol''))
   \<and> (16 \<le> length p
        \<and> three_of_four (has_upper p) (has_lower p) (has_digit U p) (has_symbol p) \<longrightarrow>
        validate_password U p = (True, ''''))"
proof (cases "length p < 16")
  case True
  then show ?thesis
    by (simp add: validate_password_cases)
next
  case False
  then show ?thesis
    using categories_present_ge3 [of U p]
    by (auto simp: validate_password_cases not_le)
qed

text \<open>The three passwords of the specification's section 8.\<close>

theorem validate_password_iff_witness:
  "\<forall>U. (length (pystr_of ''Sh0rt!'') < 16
         \<and> validate_password U (pystr_of ''Sh0rt!'') = (False, ''Password must be at least 16 characters long''))
      \<and> (16 \<le> length (pystr_of ''aaaaaaaaaaaaaaaaaaaa'')
         \<and> has_lower (pystr_of ''aaaaaaaaaaaaaaaaaaaa'')
         \<and> \<not> has_upper (pystr_of ''aaaaaaaaaaaaaaaaaaaa'')
         \<and> \<not> has_digit U (pystr_of ''aaaaaaaaaaaaaaaaaaaa'')
         \<and> \<not> has_symbol (pystr_of ''aaaaaaaaaaaaaaaaaaaa'')
         \<and> validate_password U (pystr_of ''aaaaaaaaaaaaaaaaaaaa'')
             = (False,
                ''Password must contain at least 3 of: uppercase, lowercase, number, symbol''))
      \<and> (16 \<le> length (pystr_of ''Aa1!Aa1!Aa1!Aa1!'')
         \<and> has_upper (pystr_of ''Aa1!Aa1!Aa1!Aa1!'')
         \<and> has_lower (pystr_of ''Aa1!Aa1!Aa1!Aa1!'')
         \<and> has_digit U (pystr_of ''Aa1!Aa1!Aa1!Aa1!'')
         \<and> has_symbol (pystr_of ''Aa1!Aa1!Aa1!Aa1!'')
         \<and> validate_password U (pystr_of ''Aa1!Aa1!Aa1!Aa1!'') = (True, ''''))"
proof (intro allI conjI)
  fix U
  let ?s = "pystr_of ''Sh0rt!''"
  let ?a = "pystr_of ''aaaaaaaaaaaaaaaaaaaa''"
  let ?v = "pystr_of ''Aa1!Aa1!Aa1!Aa1!''"
  show s: "length ?s < 16"
    by (simp add: pystr_of_def)
  show "validate_password U ?s = (False, ''Password must be at least 16 characters long'')"
    using s validate_password_iff [of U ?s] by blast
  show a: "16 \<le> length ?a"
    by (simp add: pystr_of_def)
  show a1: "has_lower ?a" and a2: "\<not> has_upper ?a" and a3: "\<not> has_digit U ?a"
    and a4: "\<not> has_symbol ?a"
    by (simp_all add: password_eval)
  show "validate_password U ?a = (False,
                ''Password must contain at least 3 of: uppercase, lowercase, number, symbol'')"
    using a a2 a3 a4 validate_password_iff [of U ?a] by (simp add: three_of_four_def)
  show v: "16 \<le> length ?v"
    by (simp add: pystr_of_def)
  show v1: "has_upper ?v" and v2: "has_lower ?v" and v3: "has_digit U ?v" and v4: "has_symbol ?v"
    by (simp_all add: password_eval)
  show "validate_password U ?v = (True, '''')"
    using v v1 v2 v3 v4 validate_password_iff [of U ?v] by (simp add: three_of_four_def)
qed

subsection \<open>The inline check against the policy\<close>

lemma password_strength_check_None:
  "password_strength_check U p = None \<longleftrightarrow> 16 \<le> length p \<and> 3 \<le> complexity_count U p"
  by (auto simp: password_strength_check_def)

lemma ascii_classes:
  "is_ascii c \<Longrightarrow> py_isupper U c = re_upper c"
  "is_ascii c \<Longrightarrow> py_islower U c = re_lower c"
  "is_ascii c \<Longrightarrow> py_isdigit U c = re_digit U c"
  by (simp_all add: is_ascii_def py_isupper_def py_islower_def py_isdigit_def
        re_upper_def re_lower_def re_digit_def)

lemma in_inline_symbols_iff:
  "in_inline_symbols c \<longleftrightarrow>
     c \<in> {33, 64, 35, 36, 37, 94, 38, 42, 40, 41, 95, 43, 45, 61, 91, 93, 123, 125,
          124, 59, 58, 44, 46, 60, 62, 63}"
  by (simp add: in_inline_symbols_def inline_symbols_def pystr_of_def)

lemma inline_symbol_is_re_symbol: "in_inline_symbols c \<Longrightarrow> re_symbol c"
  unfolding in_inline_symbols_iff re_symbol_def by auto

lemma ascii_flags:
  assumes "list_all is_ascii p"
  shows "py_any (py_isupper U) p = has_upper p"
    and "py_any (py_islower U) p = has_lower p"
    and "py_any (py_isdigit U) p = has_digit U p"
  using assms
  by (auto simp: py_any_iff re_search_iff has_upper_def has_lower_def has_digit_def
        list_all_iff ascii_classes)

lemma inline_symbol_flag: "py_any in_inline_symbols p \<Longrightarrow> has_symbol p"
  by (auto simp: py_any_iff re_search_iff has_symbol_def intro: inline_symbol_is_re_symbol)

lemma symbol_flag_inline:
  "list_all (\<lambda>c. re_symbol c \<longrightarrow> in_inline_symbols c) p \<Longrightarrow> has_symbol p \<Longrightarrow>
   py_any in_inline_symbols p"
  by (auto simp: py_any_iff re_search_iff has_symbol_def list_all_iff)

lemma complexity_count_le:
  assumes "list_all is_ascii p"
  shows "complexity_count U p \<le> categories_present U p"
  using inline_symbol_flag [of p]
  by (simp add: complexity_count_def categories_present_def Let_def ascii_flags [OF assms])

lemma complexity_count_eq:
  assumes "list_all is_ascii p"
    and "list_all (\<lambda>c. re_symbol c \<longrightarrow> in_inline_symbols c) p"
  shows "complexity_count U p = categories_present U p"
  using inline_symbol_flag [of p] symbol_flag_inline [OF assms(2)]
  by (auto simp add: complexity_count_def categories_present_def Let_def
        ascii_flags [OF assms(1)])

text \<open>
  C5, as amended. The inline check of \<open>register\<close>, \<open>reset_password\<close> and \<open>add_user\<close> is
  not the policy of \<open>validate_password\<close>: it counts as a symbol only a character of
  its own list of 26, and it classifies letters and digits with \<open>str.isupper\<close>,
  \<open>str.islower\<close> and \<open>str.isdigit\<close>. On a password of ASCII characters, a password the
  inline check accepts is accepted by \<open>validate_password\<close>; and when moreover every
  character of the password that is neither an ASCII letter nor an ASCII digit is in
  the inline list, the two accept the same passwords.
\<close>

theorem inline_check_refines_validate_password_on_ascii:
  assumes "list_all is_ascii p"
  shows "(password_strength_check U p = None \<longrightarrow> fst (validate_password U p)) \<and>
         (list_all (\<lambda>c. re_symbol c \<longrightarrow> in_inline_symbols c) p \<longrightarrow>
            (password_strength_check U p = None \<longleftrightarrow> fst (validate_password U p)))"
  using complexity_count_le [OF assms, of U] complexity_count_eq [OF assms, of U]
  by (auto simp: password_strength_check_None validate_password_cases)

theorem inline_check_refines_validate_password_on_ascii_witness:
  "\<forall>U. list_all is_ascii (pystr_of ''Aa1!Aa1!Aa1!Aa1!'')
       \<and> list_all (\<lambda>c. re_symbol c \<longrightarrow> in_inline_symbols c) (pystr_of ''Aa1!Aa1!Aa1!Aa1!'')
       \<and> password_strength_check U (pystr_of ''Aa1!Aa1!Aa1!Aa1!'') = None
       \<and> fst (validate_password U (pystr_of ''Aa1!Aa1!Aa1!Aa1!''))"
proof (intro allI conjI)
  fix U
  show a: "list_all is_ascii (pystr_of ''Aa1!Aa1!Aa1!Aa1!'')"
    by (simp add: pystr_of_def is_ascii_def)
  show "list_all (\<lambda>c. re_symbol c \<longrightarrow> in_inline_symbols c) (pystr_of ''Aa1!Aa1!Aa1!Aa1!'')"
    by (simp add: pystr_of_def re_symbol_def in_inline_symbols_iff)
  show b: "password_strength_check U (pystr_of ''Aa1!Aa1!Aa1!Aa1!'') = None"
    by (simp add: password_eval in_inline_symbols_iff)
  show "fst (validate_password U (pystr_of ''Aa1!Aa1!Aa1!Aa1!''))"
    using b inline_check_refines_validate_password_on_ascii [OF a, of U] by blast
qed

text \<open>
  The claim as stated fails: sixteen characters with lower-case letters, digits and a
  slash pass \<open>validate_password\<close> (the slash is a symbol there) and are refused by the
  inline check (the slash is not in its list).
\<close>

theorem inline_check_differs_from_validate_password:
  "\<forall>U. fst (validate_password U (pystr_of ''abcdefgh1234567/''))
       \<and> password_strength_check U (pystr_of ''abcdefgh1234567/'')
           = Some ''Password must contain at least 3 of: uppercase, lowercase, number, symbol.''"
  by (simp add: validate_password_cases password_eval in_inline_symbols_iff)

text \<open>
  Outside ASCII the inline check is not the stricter one either: with \<open>str.isupper\<close>
  true of U+00C9 and \<open>str.islower\<close> true of U+00E9, eight of the one, seven of the
  other and an exclamation mark pass the inline check, while \<open>validate_password\<close>
  sees symbols only.
\<close>

lemma non_ascii_letters_pass_inline_only:
  assumes "uc_isupper U 201" and "uc_islower U 233"
  shows "password_strength_check U (replicate 8 201 @ replicate 7 233 @ pystr_of ''!'') = None
       \<and> validate_password U (replicate 8 201 @ replicate 7 233 @ pystr_of ''!'')
           = (False,
                ''Password must contain at least 3 of: uppercase, lowercase, number, symbol'')"
proof -
  let ?p = "replicate 8 201 @ replicate 7 233 @ pystr_of ''!''"
  have s: "set ?p = {201, 233, 33}"
    by (auto simp: pystr_of_def)
  have "py_any (py_isupper U) ?p" "py_any (py_islower U) ?p" "py_any in_inline_symbols ?p"
    unfolding py_any_iff s using assms
    by (simp_all add: py_isupper_def py_islower_def in_inline_symbols_iff)
  then have a: "3 \<le> complexity_count U ?p"
    by (simp add: complexity_count_def Let_def)
  have "\<not> has_upper ?p" "\<not> has_lower ?p"
    unfolding has_upper_iff has_lower_iff s by simp_all
  then have b: "categories_present U ?p < 3"
    by (simp add: categories_present_def)
  have l: "length ?p = 16"
    by (simp add: pystr_of_def)
  show ?thesis
    using a b l by (simp add: password_strength_check_None validate_password_cases)
qed

section \<open>The paths of login\<close>

lemma first_where_SomeD:
  "first_where P xs = Some (i, x) \<Longrightarrow> i < length xs \<and> xs ! i = x \<and> P x"
  by (induction xs arbitrary: i) (auto split: if_splits option.splits)

lemma first_where_update:
  "first_where P xs = Some (i, x) \<Longrightarrow> P y \<Longrightarrow>
   first_where P (list_update xs i y) = Some (i, y)"
  by (induction xs arbitrary: i) (auto split: if_splits option.splits)

lemma first_where_None_iff: "first_where P xs = None \<longleftrightarrow> (\<forall>x \<in> set xs. \<not> P x)"
  by (induction xs) (auto split: option.splits)

lemma log_login_attempt_four: "log_login_attempt e req [a, b, c, d] st = Inl TypeError"
  by (simp add: log_login_attempt_def)

lemma log_login_attempt_two:
  "log_login_attempt e req [a, b] st = Inr (log_login_attempt_body e req a b VNone st)"
  by (simp add: log_login_attempt_def)

lemma log_login_attempt_body_two:
  "log_login_attempt_body e req (VStr uname) (VBool ok) VNone st =
     (if audit_ok e then st\<lparr>login_attempts := login_attempts st @ [audit_row req uname ok]\<rparr>
      else st)"
  by (simp add: log_login_attempt_body_def audit_row_def truthy_def)

lemma login_blank:
  assumes "req_method req = POST"
    and "strip (form_get req ''username'' []) = [] \<or> form_get req ''password'' [] = []"
  shows "login e req st =
           Inr (Render ''nasa_login.html'',
                flash (Msg ''Username and password are required.'') ''danger'' st)"
  using assms by (auto simp: login_def Let_def)

lemma login_unknown:
  assumes "req_method req = POST"
    and "strip (form_get req ''username'' []) = uname" and "uname \<noteq> []"
    and "form_get req ''password'' [] \<noteq> []"
    and "first_where (\<lambda>u. username u = uname) (users st) = None"
  shows "login e req st = Inl TypeError"
  using assms by (simp add: login_def Let_def log_login_attempt_four)

lemma login_pending:
  assumes "req_method req = POST"
    and "strip (form_get req ''username'' []) = uname" and "uname \<noteq> []"
    and "form_get req ''password'' [] \<noteq> []"
    and "first_where (\<lambda>u. username u = uname) (users st) = Some (i, u)"
    and "\<not> is_approved u"
  shows "login e req st = Inl TypeError"
  using assms by (simp add: login_def Let_def log_login_attempt_four)

lemma login_locked:
  assumes "req_method req = POST"
    and "strip (form_get req ''username'' []) = uname" and "uname \<noteq> []"
    and "form_get req ''password'' [] \<noteq> []"
    and "first_where (\<lambda>u. username u = uname) (users st) = Some (i, u)"
    and "is_approved u" and "is_locked e u"
  shows "login e req st =
           Inr (Render ''nasa_login.html'',
                flash (Locked_until_msg (locked_until u)) ''danger'' st)"
  using assms by (simp add: login_def Let_def)

lemma login_success:
  assumes "req_method req = POST"
    and "strip (form_get req ''username'' []) = uname" and "uname \<noteq> []"
    and "form_get req ''password'' [] = password" and "password \<noteq> []"
    and "first_where (\<lambda>u. username u = uname) (users st) = Some (i, u)"
    and "is_approved u" and "\<not> is_locked e u" and "check_password e u password"
  shows "login e req st =
           (if commit_ok e then
              Inr (Redirect ''nasa_bp.dashboard'',
                   flash (Welcome_back (username u)) ''success''
                     (log_login_attempt_body e req (VStr uname) (VBool True) VNone
                        (st\<lparr>users := list_update (users st) i (reset_failed_logins u),
                            session_user_id := Some (user_id u),
                            session_username := Some (username u)\<rparr>)))
            else Inl CommitFailed)"
  using assms
  by (simp add: login_def Let_def log_login_attempt_two commit_def reset_failed_logins_def)

lemma login_failure:
  assumes "req_method req = POST"
    and "strip (form_get req ''username'' []) = uname" and "uname \<noteq> []"
    and "form_get req ''password'' [] = password" and "password \<noteq> []"
    and "first_where (\<lambda>u. username u = uname) (users st) = Some (i, u)"
    and "is_approved u" and "\<not> is_locked e u" and "\<not> check_password e u password"
  shows "login e req st =
           (if commit_ok e then
              Inr (Render ''nasa_login.html'',
                   flash (if 10 - failed_login_attempts (increment_failed_login e u) > 0
                          then Attempts_remaining
                                 (10 - failed_login_attempts (increment_failed_login e u))
                          else Msg ''Account locked for 30 minutes due to too many failed attempts.'')
                     ''danger''
                     (log_login_attempt_body e req (VStr uname) (VBool False) VNone
                        (st\<lparr>users := list_update (users st) i (increment_failed_login e u)\<rparr>)))
            else Inl CommitFailed)"
  using assms
  by (simp add: login_def Let_def log_login_attempt_two commit_def)

subsection \<open>The sample data\<close>

lemmas sample_eval =
  sample_env_def sample_user_def sample_state_def login_post_def pystr_of_def
  form_get_def strip_def py_isspace_def

lemma bob_login_request:
  "req_method (login_post ''bob'' pw) = POST"
  "strip (form_get (login_post ''bob'' pw) ''username'' []) = pystr_of ''bob''"
  "form_get (login_post ''bob'' pw) ''password'' [] = pystr_of pw"
  by (simp_all add: sample_eval)

lemma bob_account:
  assumes "username u = pystr_of ''bob''"
  shows "pystr_of ''bob'' \<noteq> []"
    and "first_where (\<lambda>v. username v = pystr_of ''bob'') (users (sample_state [u])) = Some (0, u)"
  using assms by (simp_all add: sample_eval)

subsection \<open>Blank fields\<close>

text \<open>
  C10. A login POST whose user name is empty after stripping, or whose password is
  empty, gets the login page back with the message that both are required. The
  outcome is the same whatever the accounts are; the accounts, the audit table and
  the session are as they were, and the one change of the state is the flashed message.
\<close>

theorem login_blank_fields_leave_no_trace:
  assumes "req_method req = POST"
    and "strip (form_get req ''username'' []) = [] \<or> form_get req ''password'' [] = []"
  shows "login e req st =
           Inr (Render ''nasa_login.html'',
                st\<lparr>flashes := flashes st
                       @ [(Msg ''Username and password are required.'', ''danger'')]\<rparr>)"
  using login_blank [OF assms] by (simp add: flash_def)

theorem login_blank_fields_leave_no_trace_witness:
  "\<forall>e us.
     req_method (login_post ''  '' ''secret'') = POST
     \<and> strip (form_get (login_post ''  '' ''secret'') ''username'' []) = []
     \<and> login e (login_post ''  '' ''secret'') (sample_state us) =
         Inr (Render ''nasa_login.html'',
              \<lparr>users = us, login_attempts = [], session_user_id = None,
               session_username = None,
               flashes = [(Msg ''Username and password are required.'', ''danger'')]\<rparr>)"
proof (intro allI conjI)
  fix e us
  show a: "req_method (login_post ''  '' ''secret'') = POST"
    by (simp add: login_post_def)
  show b: "strip (form_get (login_post ''  '' ''secret'') ''username'' []) = []"
    by (simp add: sample_eval)
  show "login e (login_post ''  '' ''secret'') (sample_state us) =
         Inr (Render ''nasa_login.html'',
              \<lparr>users = us, login_attempts = [], session_user_id = None,
               session_username = None,
               flashes = [(Msg ''Username and password are required.'', ''danger'')]\<rparr>)"
    using login_blank_fields_leave_no_trace [OF a disjI1 [OF b], of e "sample_state us"]
    by (simp add: sample_state_def)
qed

subsection \<open>A user name that matches no account\<close>

text \<open>
  C3. What the route does for a user name that no account has: the audit call of
  that branch passes four positional arguments to a function that takes at most
  three, so the request ends in \<open>TypeError\<close> before a row is written or a message is
  flashed. The claim (the request completes with one failed audit row and the
  generic invalid-credentials message) does not hold of the code.
\<close>

theorem login_unknown_username_raises:
  assumes "req_method req = POST"
    and "strip (form_get req ''username'' []) \<noteq> []"
    and "form_get req ''password'' [] \<noteq> []"
    and "\<forall>u \<in> set (users st). username u \<noteq> strip (form_get req ''username'' [])"
  shows "login e req st = Inl TypeError"
proof -
  have "first_where (\<lambda>u. username u = strip (form_get req ''username'' [])) (users st) = None"
    using assms(4) by (simp add: first_where_None_iff)
  then show ?thesis
    using assms(1,2,3) by (simp add: login_unknown)
qed

theorem login_unknown_username_raises_witness:
  "\<forall>e. strip (form_get (login_post ''ghost'' ''x'') ''username'' []) = pystr_of ''ghost''
      \<and> login e (login_post ''ghost'' ''x'') (sample_state [sample_user]) = Inl TypeError"
proof (intro allI conjI)
  fix e
  have a: "req_method (login_post ''ghost'' ''x'') = POST"
    by (simp add: login_post_def)
  show b: "strip (form_get (login_post ''ghost'' ''x'') ''username'' []) = pystr_of ''ghost''"
    by (simp add: sample_eval)
  have c: "form_get (login_post ''ghost'' ''x'') ''password'' [] \<noteq> []"
    by (simp add: sample_eval)
  have d: "\<forall>u \<in> set (users (sample_state [sample_user])).
             username u \<noteq> strip (form_get (login_post ''ghost'' ''x'') ''username'' [])"
    unfolding b by (simp add: sample_eval)
  have b': "strip (form_get (login_post ''ghost'' ''x'') ''username'' []) \<noteq> []"
    unfolding b by (simp add: pystr_of_def)
  show "login e (login_post ''ghost'' ''x'') (sample_state [sample_user]) = Inl TypeError"
    by (rule login_unknown_username_raises [OF a b' c d])
qed

subsection \<open>The audit trail\<close>

text \<open>
  C1. What the route does for a locked account: the branch answers with the lock
  message and returns without the audit call that the other branches of \<open>login\<close>
  make, so the accounts, the session and the audit table are as before and the one
  change of the state is the flashed message. The claim (every attempt, a locked one
  included, appends exactly one audit row marked as failed) does not hold of the code.
\<close>

theorem locked_login_writes_no_audit_row:
  assumes "req_method req = POST"
    and "strip (form_get req ''username'' []) = uname" and "uname \<noteq> []"
    and "form_get req ''password'' [] \<noteq> []"
    and "first_where (\<lambda>v. username v = uname) (users st) = Some (i, u)"
    and "is_approved u" and "is_locked e u"
  shows "login e req st =
           Inr (Render ''nasa_login.html'',
                st\<lparr>flashes := flashes st
                       @ [(Locked_until_msg (locked_until u), ''danger'')]\<rparr>)"
  using login_locked [OF assms] by (simp add: flash_def)

theorem locked_login_writes_no_audit_row_witness:
  "is_locked (sample_env 500) (sample_user\<lparr>locked_until := Some 1000\<rparr>)
   \<and> login (sample_env 500) (login_post ''bob'' ''Correct-Horse-42!'')
       (sample_state [sample_user\<lparr>locked_until := Some 1000\<rparr>]) =
     Inr (Render ''nasa_login.html'',
          \<lparr>users = [sample_user\<lparr>locked_until := Some 1000\<rparr>], login_attempts = [],
           session_user_id = None, session_username = None,
           flashes = [(Locked_until_msg (Some 1000), ''danger'')]\<rparr>)"
proof (intro conjI)
  let ?e = "sample_env 500"
  let ?l = "sample_user\<lparr>locked_until := Some 1000\<rparr>"
  have ul: "username ?l = pystr_of ''bob''" "is_approved ?l"
    by (simp_all add: sample_user_def)
  have p: "form_get (login_post ''bob'' ''Correct-Horse-42!'') ''password'' [] \<noteq> []"
    by (simp add: bob_login_request pystr_of_def)
  show l: "is_locked ?e ?l"
    by (simp add: is_locked_def sample_env_def)
  note R = bob_login_request [of "''Correct-Horse-42!''"] and A = bob_account [OF ul(1)]
  show "login ?e (login_post ''bob'' ''Correct-Horse-42!'') (sample_state [?l]) =
     Inr (Render ''nasa_login.html'',
          \<lparr>users = [?l], login_attempts = [],
           session_user_id = None, session_username = None,
           flashes = [(Locked_until_msg (Some 1000), ''danger'')]\<rparr>)"
    using locked_login_writes_no_audit_row [OF R(1,2) A(1) p A(2) ul(2) l]
    by (simp add: sample_state_def)
qed

text \<open>
  The two branches that reach the password check do make the audit call: when the
  commit of the route goes through, a right or a wrong password appends one row,
  marked with the result of the check, if the audit write succeeds, and none if it
  fails.
\<close>

lemma password_check_audit_rows:
  assumes "req_method req = POST"
    and "strip (form_get req ''username'' []) = uname" and "uname \<noteq> []"
    and "form_get req ''password'' [] = password" and "password \<noteq> []"
    and "first_where (\<lambda>v. username v = uname) (users st) = Some (i, u)"
    and "is_approved u" and "\<not> is_locked e u" and "commit_ok e"
  shows "\<exists>r st'. login e req st = Inr (r, st') \<and>
           login_attempts st' =
             (if audit_ok e
              then login_attempts st @ [audit_row req uname (check_password e u password)]
              else login_attempts st)"
proof (cases "check_password e u password")
  case True
  then show ?thesis
    using login_success [OF assms(1-8)] assms(9)
    by (simp add: flash_def log_login_attempt_body_two)
next
  case False
  then show ?thesis
    using login_failure [OF assms(1-8)] assms(9)
    by (simp add: flash_def log_login_attempt_body_two)
qed

subsection \<open>A failing audit write\<close>

lemma outcome_flash_body:
  "outcome (Inr (r, flash m c (log_login_attempt_body e req a b ua st))) =
   outcome (Inr (r, flash m c st))"
  by (simp add: outcome_def flash_def log_login_attempt_body_def Let_def)

text \<open>
  C8. When the write of the audit row fails, \<open>log_login_attempt\<close> returns normally and
  the stored state is as before the call; what the caller of \<open>login\<close> sees (the
  response or the exception, the accounts, the session, the flashed messages) is the
  same as when the write succeeds. \<open>register\<close> writes no audit row and does not
  depend on the audit write at all.
\<close>

theorem audit_failure_is_swallowed:
  "log_login_attempt_body (e\<lparr>audit_ok := False\<rparr>) req uname success user_agent st = st
   \<and> log_login_attempt (e\<lparr>audit_ok := False\<rparr>) req [uname, success] st = Inr st
   \<and> log_login_attempt (e\<lparr>audit_ok := False\<rparr>) req [uname, success, user_agent] st = Inr st
   \<and> outcome (login (e\<lparr>audit_ok := False\<rparr>) req st)
       = outcome (login (e\<lparr>audit_ok := True\<rparr>) req st)
   \<and> register U (e\<lparr>audit_ok := False\<rparr>) req st = register U (e\<lparr>audit_ok := True\<rparr>) req st"
proof (intro conjI)
  show "log_login_attempt_body (e\<lparr>audit_ok := False\<rparr>) req uname success user_agent st = st"
    by (simp add: log_login_attempt_body_def Let_def)
  show "log_login_attempt (e\<lparr>audit_ok := False\<rparr>) req [uname, success] st = Inr st"
    by (simp add: log_login_attempt_def log_login_attempt_body_def Let_def)
  show "log_login_attempt (e\<lparr>audit_ok := False\<rparr>) req [uname, success, user_agent] st = Inr st"
    by (simp add: log_login_attempt_def log_login_attempt_body_def Let_def)
  show "register U (e\<lparr>audit_ok := False\<rparr>) req st = register U (e\<lparr>audit_ok := True\<rparr>) req st"
    by (simp add: register_def Let_def split del: if_split cong: if_cong option.case_cong)
  show "outcome (login (e\<lparr>audit_ok := False\<rparr>) req st)
       = outcome (login (e\<lparr>audit_ok := True\<rparr>) req st)"
    by (simp add: login_def Let_def log_login_attempt_def commit_def is_locked_def
        check_password_def increment_failed_login_def outcome_flash_body
        split: option.splits)
qed

section \<open>The lockout\<close>

text \<open>
  C6. A login with the right password on an approved account that is not locked,
  whose commit goes through, leaves the account with \<open>failed_login_attempts = 0\<close> and
  \<open>locked_until = None\<close>, whatever the two were before, and opens the session.
\<close>

theorem successful_login_resets_lockout:
  assumes "req_method req = POST"
    and "strip (form_get req ''username'' []) = uname" and "uname \<noteq> []"
    and "form_get req ''password'' [] = password" and "password \<noteq> []"
    and "first_where (\<lambda>v. username v = uname) (users st) = Some (i, u)"
    and "is_approved u" and "\<not> is_locked e u" and "check_password e u password"
    and "commit_ok e"
  shows "\<exists>st'. login e req st = Inr (Redirect ''nasa_bp.dashboard'', st')
           \<and> users st' =
               list_update (users st) i (u\<lparr>failed_login_attempts := 0, locked_until := None\<rparr>)
           \<and> first_where (\<lambda>v. username v = uname) (users st')
               = Some (i, u\<lparr>failed_login_attempts := 0, locked_until := None\<rparr>)
           \<and> session_user_id st' = Some (user_id u)"
proof -
  have "username (u\<lparr>failed_login_attempts := 0, locked_until := None\<rparr>) = uname"
    using first_where_SomeD [OF assms(6)] by simp
  then have "first_where (\<lambda>v. username v = uname)
               (list_update (users st) i (u\<lparr>failed_login_attempts := 0, locked_until := None\<rparr>))
             = Some (i, u\<lparr>failed_login_attempts := 0, locked_until := None\<rparr>)"
    using first_where_update [OF assms(6)] by simp
  then show ?thesis
    using login_success [OF assms(1-9)] assms(10)
    by (simp add: flash_def log_login_attempt_body_def Let_def reset_failed_logins_def)
qed

theorem successful_login_resets_lockout_witness:
  "\<not> is_locked (sample_env 500)
        (sample_user\<lparr>failed_login_attempts := 7, locked_until := Some 100\<rparr>)
   \<and> check_password (sample_env 500)
        (sample_user\<lparr>failed_login_attempts := 7, locked_until := Some 100\<rparr>)
        (pystr_of ''Correct-Horse-42!'')
   \<and> (\<exists>st'. login (sample_env 500) (login_post ''bob'' ''Correct-Horse-42!'')
               (sample_state [sample_user\<lparr>failed_login_attempts := 7, locked_until := Some 100\<rparr>])
             = Inr (Redirect ''nasa_bp.dashboard'', st')
           \<and> users st' = [sample_user\<lparr>failed_login_attempts := 0, locked_until := None\<rparr>]
           \<and> session_user_id st' = Some 7)"
proof -
  let ?e = "sample_env 500"
  let ?u = "sample_user\<lparr>failed_login_attempts := 7, locked_until := Some 100\<rparr>"
  have u: "username ?u = pystr_of ''bob''" "is_approved ?u" "user_id ?u = 7"
    by (simp_all add: sample_user_def)
  have p: "pystr_of ''Correct-Horse-42!'' \<noteq> []"
    by (simp add: pystr_of_def)
  have n: "\<not> is_locked ?e ?u" "commit_ok ?e"
    by (simp_all add: is_locked_def sample_env_def)
  have c: "check_password ?e ?u (pystr_of ''Correct-Horse-42!'')"
    by (simp add: check_password_def sample_env_def sample_user_def)
  note R = bob_login_request [of "''Correct-Horse-42!''"] and A = bob_account [OF u(1)]
  have "\<exists>st'. login ?e (login_post ''bob'' ''Correct-Horse-42!'') (sample_state [?u])
             = Inr (Redirect ''nasa_bp.dashboard'', st')
           \<and> users st' = list_update (users (sample_state [?u])) 0
                 (?u\<lparr>failed_login_attempts := 0, locked_until := None\<rparr>)
           \<and> session_user_id st' = Some (user_id ?u)"
    using successful_login_resets_lockout [OF R(1,2) A(1) R(3) p A(2) u(2) n(1) c n(2)] by blast
  then show ?thesis
    using n c u(3) by (simp add: sample_state_def)
qed

subsection \<open>Wrong passwords\<close>

lemma increment_failed_login_below:
  "failed_login_attempts u + 1 < 10 \<Longrightarrow>
   increment_failed_login e u = u\<lparr>failed_login_attempts := failed_login_attempts u + 1\<rparr>"
  by (simp add: increment_failed_login_def Let_def lockout_threshold_def)

lemma increment_failed_login_reach:
  "failed_login_attempts u + 1 \<ge> 10 \<Longrightarrow>
   increment_failed_login e u =
     u\<lparr>failed_login_attempts := failed_login_attempts u + 1,
       locked_until := Some (now e + lockout_seconds)\<rparr>"
  by (simp add: increment_failed_login_def Let_def lockout_threshold_def)

lemma wrong_password_step:
  assumes "first_where (\<lambda>v. username v = username u) (users st) = Some (i, u)"
    and "username u \<noteq> []" and "is_approved u"
    and "wrong_password_request u (e, req)"
  shows "\<exists>r st'. login e req st = Inr (r, st') \<and>
           users st' = list_update (users st) i (increment_failed_login e u)"
proof -
  from assms(4) have h: "req_method req = POST"
    "strip (form_get req ''username'' []) = username u"
    "form_get req ''password'' [] \<noteq> []" "commit_ok e" "\<not> is_locked e u"
    "\<not> check_password e u (form_get req ''password'' [])"
    by (simp_all add: wrong_password_request_def login_request_for_def check_password_def)
  show ?thesis
    using login_failure [OF h(1,2) assms(2) refl h(3) assms(1,3) h(5,6)] h(4)
    by (simp add: flash_def log_login_attempt_body_def Let_def)
qed

lemma wrong_password_request_cong:
  "password_hash u' = password_hash u \<Longrightarrow> username u' = username u \<Longrightarrow>
   locked_until u' = locked_until u \<Longrightarrow>
   wrong_password_request u' r = wrong_password_request u r"
  by (cases r) (simp add: wrong_password_request_def login_request_for_def is_locked_def)

text \<open>Below the threshold, a run of wrong passwords only counts.\<close>

lemma wrong_password_run:
  assumes "first_where (\<lambda>v. username v = username u) (users st) = Some (i, u)"
    and "username u \<noteq> []" and "is_approved u"
    and "list_all (wrong_password_request u) rs"
    and "failed_login_attempts u + int (length rs) < 10"
  shows "\<exists>st'. login_all rs st = Inr st' \<and>
           users st' = list_update (users st) i
             (u\<lparr>failed_login_attempts := failed_login_attempts u + int (length rs)\<rparr>)"
  using assms
proof (induction rs arbitrary: st u)
  case Nil
  then show ?case
    using first_where_SomeD [OF Nil(1)] by (auto simp: list_update_same_conv)
next
  case (Cons r rs)
  obtain e req where r: "r = (e, req)" by (cases r)
  let ?u1 = "u\<lparr>failed_login_attempts := failed_login_attempts u + 1\<rparr>"
  have inc: "increment_failed_login e u = ?u1"
    using Cons.prems(5) by (intro increment_failed_login_below) simp
  from Cons.prems(4) have w: "wrong_password_request u (e, req)"
    and ws: "list_all (wrong_password_request u) rs"
    by (simp_all add: r)
  obtain r1 st1 where s1: "login e req st = Inr (r1, st1)"
    and u1: "users st1 = list_update (users st) i ?u1"
    using wrong_password_step [OF Cons.prems(1,2,3) w] inc by auto
  have f1: "first_where (\<lambda>v. username v = username ?u1) (users st1) = Some (i, ?u1)"
    using first_where_update [OF Cons.prems(1), of ?u1] u1 by simp
  have ws1: "list_all (wrong_password_request ?u1) rs"
    using ws by (simp add: wrong_password_request_cong [of ?u1 u] cong: list.pred_cong)
  have "\<exists>st'. login_all rs st1 = Inr st' \<and>
           users st' = list_update (users st1) i
             (?u1\<lparr>failed_login_attempts := failed_login_attempts ?u1 + int (length rs)\<rparr>)"
    using Cons.prems(2,3,5) by (intro Cons.IH [OF f1 _ _ ws1]) simp_all
  then show ?case
    by (simp add: r s1 u1 ac_simps)
qed

lemma increment_failed_login_count:
  "failed_login_attempts (increment_failed_login e u) = failed_login_attempts u + 1"
  by (simp add: increment_failed_login_def Let_def)

text \<open>
  C2. A wrong-password attempt on an approved account that is not locked adds exactly
  one to the account's counter and leaves the other counters alone. From a counter of
  0, nine such attempts in a row count one each: after \<open>k\<close> of them the counter is
  \<open>k\<close>, and after the ninth the account is as before but for the counter, which is
  9. The tenth sets the counter to 10 and \<open>locked_until\<close> to its own time plus 30
  minutes. An attempt before that time, with any password, gets the lock message, and
  the stored accounts stay as they are: the counter is not touched.
\<close>

theorem lockout_after_ten_failures:
  assumes "first_where (\<lambda>v. username v = username u) (users st) = Some (i, u)"
    and "username u \<noteq> []" and "is_approved u"
    and "list_all (wrong_password_request u) rs" and "length rs = 9"
    and "wrong_password_request u (e10, req10)"
    and "login_request_for u (e', req')" and "now e' < now e10 + 30 * 60"
  shows "(\<exists>r st1. login e10 req10 st = Inr (r, st1) \<and>
            map failed_login_attempts (users st1) =
              list_update (map failed_login_attempts (users st)) i (failed_login_attempts u + 1))
       \<and> (failed_login_attempts u = 0 \<longrightarrow>
            (\<forall>k \<le> 9. \<exists>st_k. login_all (take k rs) st = Inr st_k \<and>
               users st_k = list_update (users st) i (u\<lparr>failed_login_attempts := int k\<rparr>))
          \<and> (\<exists>st9 st10 r10.
               login_all rs st = Inr st9
             \<and> users st9 = list_update (users st) i (u\<lparr>failed_login_attempts := 9\<rparr>)
             \<and> login e10 req10 st9 = Inr (r10, st10)
             \<and> users st10 = list_update (users st) i
                  (u\<lparr>failed_login_attempts := 10, locked_until := Some (now e10 + 30 * 60)\<rparr>)
             \<and> login e' req' st10 =
                  Inr (Render ''nasa_login.html'',
                       st10\<lparr>flashes := flashes st10
                               @ [(Locked_until_msg (Some (now e10 + 30 * 60)), ''danger'')]\<rparr>)))"
proof (intro conjI allI impI)
  show "\<exists>r st1. login e10 req10 st = Inr (r, st1) \<and>
            map failed_login_attempts (users st1) =
              list_update (map failed_login_attempts (users st)) i (failed_login_attempts u + 1)"
    using wrong_password_step [OF assms(1,2,3,6)]
    by (auto simp: map_update increment_failed_login_count)
next
  fix k :: nat
  assume z: "failed_login_attempts u = 0" and k: "k \<le> 9"
  have "list_all (wrong_password_request u) (take k rs)"
    using assms(4) by (auto simp: list_all_iff dest: in_set_takeD)
  moreover have "failed_login_attempts u + int (length (take k rs)) < 10"
    using k z assms(5) by simp
  ultimately show "\<exists>st_k. login_all (take k rs) st = Inr st_k \<and>
            users st_k = list_update (users st) i (u\<lparr>failed_login_attempts := int k\<rparr>)"
    using wrong_password_run [OF assms(1,2,3), of "take k rs"] k z assms(5)
    by (simp add: min_def)
next
  assume z: "failed_login_attempts u = 0"
  let ?u9 = "u\<lparr>failed_login_attempts := 9\<rparr>"
  let ?u10 = "u\<lparr>failed_login_attempts := 10, locked_until := Some (now e10 + 30 * 60)\<rparr>"
  obtain st9 where s9: "login_all rs st = Inr st9"
    and u9: "users st9 = list_update (users st) i ?u9"
    using wrong_password_run [OF assms(1,2,3,4)] z assms(5) by auto
  have f9: "first_where (\<lambda>v. username v = username ?u9) (users st9) = Some (i, ?u9)"
    using first_where_update [OF assms(1), of ?u9] u9 by simp
  have w10: "wrong_password_request ?u9 (e10, req10)"
    using assms(6) by (simp add: wrong_password_request_cong [of ?u9 u])
  have inc: "increment_failed_login e10 ?u9 = ?u10"
    by (simp add: increment_failed_login_reach lockout_seconds_def)
  obtain r10 st10 where s10: "login e10 req10 st9 = Inr (r10, st10)"
    and u10: "users st10 = list_update (users st) i ?u10"
    using wrong_password_step [OF f9 _ _ w10] assms(2,3) inc u9 by auto
  have f10: "first_where (\<lambda>v. username v = username u) (users st10) = Some (i, ?u10)"
    using first_where_update [OF assms(1), of ?u10] u10 by simp
  from assms(7) have h: "req_method req' = POST"
    "strip (form_get req' ''username'' []) = username u"
    "form_get req' ''password'' [] \<noteq> []"
    by (simp_all add: login_request_for_def)
  have locked: "is_locked e' ?u10"
    using assms(8) by (simp add: is_locked_def)
  have "login e' req' st10 =
          Inr (Render ''nasa_login.html'',
               flash (Locked_until_msg (locked_until ?u10)) ''danger'' st10)"
    using assms(3) by (intro login_locked [OF h(1,2) assms(2) h(3) f10 _ locked]) simp
  then show "\<exists>st9 st10 r10.
               login_all rs st = Inr st9
             \<and> users st9 = list_update (users st) i (u\<lparr>failed_login_attempts := 9\<rparr>)
             \<and> login e10 req10 st9 = Inr (r10, st10)
             \<and> users st10 = list_update (users st) i
                  (u\<lparr>failed_login_attempts := 10, locked_until := Some (now e10 + 30 * 60)\<rparr>)
             \<and> login e' req' st10 =
                  Inr (Render ''nasa_login.html'',
                       st10\<lparr>flashes := flashes st10
                               @ [(Locked_until_msg (Some (now e10 + 30 * 60)), ''danger'')]\<rparr>)"
    using s9 u9 s10 u10 by (simp add: flash_def)
qed

theorem lockout_after_ten_failures_witness:
  "list_all (wrong_password_request sample_user)
     (replicate 9 (sample_env 100, login_post ''bob'' ''wrong''))
   \<and> wrong_password_request sample_user (sample_env 200, login_post ''bob'' ''wrong'')
   \<and> login_request_for sample_user (sample_env 1999, login_post ''bob'' ''Correct-Horse-42!'')
   \<and> failed_login_attempts sample_user = 0
   \<and> (\<exists>st9 st10 r10.
         login_all (replicate 9 (sample_env 100, login_post ''bob'' ''wrong''))
           (sample_state [sample_user]) = Inr st9
       \<and> users st9 = [sample_user\<lparr>failed_login_attempts := 9\<rparr>]
       \<and> login (sample_env 200) (login_post ''bob'' ''wrong'') st9 = Inr (r10, st10)
       \<and> users st10 = [sample_user\<lparr>failed_login_attempts := 10, locked_until := Some 2000\<rparr>]
       \<and> login (sample_env 1999) (login_post ''bob'' ''Correct-Horse-42!'') st10 =
           Inr (Render ''nasa_login.html'',
                st10\<lparr>flashes := flashes st10 @ [(Locked_until_msg (Some 2000), ''danger'')]\<rparr>))"
proof -
  let ?rs = "replicate 9 (sample_env 100, login_post ''bob'' ''wrong'')"
  have u: "username sample_user = pystr_of ''bob''" "is_approved sample_user"
    "failed_login_attempts sample_user = 0"
    by (simp_all add: sample_user_def)
  have w: "wrong_password_request sample_user (sample_env t, login_post ''bob'' ''wrong'')" for t
    by (simp add: wrong_password_request_def login_request_for_def bob_login_request u(1)
        is_locked_def) (simp add: sample_env_def sample_user_def pystr_of_def)
  have ws: "list_all (wrong_password_request sample_user) ?rs"
    by (simp add: list_all_iff w)
  have len: "length ?rs = 9"
    by simp
  have l: "login_request_for sample_user
             (sample_env 1999, login_post ''bob'' ''Correct-Horse-42!'')"
    by (simp add: login_request_for_def bob_login_request u(1))
      (simp add: sample_env_def pystr_of_def)
  have t: "now (sample_env 1999) < now (sample_env 200) + 30 * 60"
    "now (sample_env 200) = 200"
    by (simp_all add: sample_env_def)
  have f: "first_where (\<lambda>v. username v = username sample_user)
             (users (sample_state [sample_user])) = Some (0, sample_user)"
    by (simp add: sample_state_def)
  have ne: "username sample_user \<noteq> []"
    by (simp add: sample_user_def pystr_of_def)
  have "\<exists>st9 st10 r10.
         login_all ?rs (sample_state [sample_user]) = Inr st9
       \<and> users st9 = list_update (users (sample_state [sample_user])) 0
            (sample_user\<lparr>failed_login_attempts := 9\<rparr>)
       \<and> login (sample_env 200) (login_post ''bob'' ''wrong'') st9 = Inr (r10, st10)
       \<and> users st10 = list_update (users (sample_state [sample_user])) 0
            (sample_user\<lparr>failed_login_attempts := 10,
               locked_until := Some (now (sample_env 200) + 30 * 60)\<rparr>)
       \<and> login (sample_env 1999) (login_post ''bob'' ''Correct-Horse-42!'') st10 =
           Inr (Render ''nasa_login.html'',
                st10\<lparr>flashes := flashes st10
                        @ [(Locked_until_msg (Some (now (sample_env 200) + 30 * 60)),
                            ''danger'')]\<rparr>)"
    using lockout_after_ten_failures [OF f ne u(2) ws len w [of 200] l t(1)] u(3) by blast
  then show ?thesis
    using ws w [of 200] l u(3) by (simp add: t(2) sample_state_def)
qed

section \<open>The administrative reset\<close>

text \<open>
  C7. When an administrator resets the password of an account (the new password
  passes the inline check and equals its confirmation, and the commit goes through),
  the account gets the hash of the new password, \<open>failed_login_attempts = 0\<close> and
  \<open>locked_until = None\<close>. Nothing is asked of the account's counter or lock before
  the reset.
\<close>

theorem reset_password_clears_lockout:
  assumes "session_user_id st = Some sid"
    and "first_where (\<lambda>v. user_id v = sid) (users st) = Some (j, a)" and "is_admin a"
    and "first_where (\<lambda>v. user_id v = uid) (users st) = Some (i, t)"
    and "form req ''new_password'' = Some pw" and "form req ''confirm_password'' = Some pw"
    and "password_strength_check U pw = None" and "commit_ok e"
  shows "reset_password U e req uid st =
           Inr (Redirect ''nasa_bp.admin'',
                flash (Reset_ok (username t)) ''success''
                  (st\<lparr>users := list_update (users st) i
                     (t\<lparr>password_hash := generate_password_hash e pw,
                        failed_login_attempts := 0, locked_until := None\<rparr>)\<rparr>))"
proof -
  have "pw \<noteq> []"
    using assms(7) by (auto simp: password_strength_check_def split: if_splits)
  then show ?thesis
    using assms
    by (simp add: reset_password_def login_required_def reset_password_view_def Let_def
        form_blank_def)
qed

text \<open>An account locked far into the future, with 57 failures counted.\<close>

theorem reset_password_clears_lockout_witness:
  "\<forall>U. is_locked (sample_env 500)
          (sample_user\<lparr>failed_login_attempts := 57, locked_until := Some 99999999999\<rparr>)
     \<and> reset_password U (sample_env 500)
         (reset_post ''Aa1!Aa1!Aa1!Aa1!'' ''Aa1!Aa1!Aa1!Aa1!'') 7
         ((sample_state
             [sample_admin,
              sample_user\<lparr>failed_login_attempts := 57, locked_until := Some 99999999999\<rparr>])
            \<lparr>session_user_id := Some 1\<rparr>) =
       Inr (Redirect ''nasa_bp.admin'',
            \<lparr>users =
               [sample_admin,
                sample_user\<lparr>password_hash := 0 # pystr_of ''Aa1!Aa1!Aa1!Aa1!'',
                           failed_login_attempts := 0, locked_until := None\<rparr>],
             login_attempts = [], session_user_id = Some 1, session_username = None,
             flashes = [(Reset_ok (pystr_of ''bob''), ''success'')]\<rparr>)"
proof (intro allI conjI)
  fix U
  let ?t = "sample_user\<lparr>failed_login_attempts := 57, locked_until := Some 99999999999\<rparr>"
  let ?st = "(sample_state [sample_admin, ?t])\<lparr>session_user_id := Some 1\<rparr>"
  let ?req = "reset_post ''Aa1!Aa1!Aa1!Aa1!'' ''Aa1!Aa1!Aa1!Aa1!''"
  show "is_locked (sample_env 500) ?t"
    by (simp add: is_locked_def sample_env_def)
  have s: "session_user_id ?st = Some 1"
    by simp
  have a: "first_where (\<lambda>v. user_id v = 1) (users ?st) = Some (0, sample_admin)"
    "is_admin sample_admin"
    by (simp_all add: sample_state_def sample_admin_def)
  have t: "first_where (\<lambda>v. user_id v = 7) (users ?st) = Some (1, ?t)"
    by (simp add: sample_state_def sample_admin_def sample_user_def)
  have f: "form ?req ''new_password'' = Some (pystr_of ''Aa1!Aa1!Aa1!Aa1!'')"
    "form ?req ''confirm_password'' = Some (pystr_of ''Aa1!Aa1!Aa1!Aa1!'')"
    by (simp_all add: reset_post_def)
  have p: "password_strength_check U (pystr_of ''Aa1!Aa1!Aa1!Aa1!'') = None"
    by (simp add: password_eval in_inline_symbols_iff)
  have c: "commit_ok (sample_env 500)"
    by (simp add: sample_env_def)
  show "reset_password U (sample_env 500) ?req 7 ?st =
       Inr (Redirect ''nasa_bp.admin'',
            \<lparr>users =
               [sample_admin,
                sample_user\<lparr>password_hash := 0 # pystr_of ''Aa1!Aa1!Aa1!Aa1!'',
                           failed_login_attempts := 0, locked_until := None\<rparr>],
             login_attempts = [], session_user_id = Some 1, session_username = None,
             flashes = [(Reset_ok (pystr_of ''bob''), ''success'')]\<rparr>)"
    using reset_password_clears_lockout [OF s a t f p c]
    by (simp add: sample_state_def flash_def sample_env_def) (simp add: sample_user_def)
qed

end
